theory Spec2Isabelle
  imports Main "HOL-Library.Sublist" "HOL-Library.AList"
begin

section \<open>JavaScript values used by the service layer\<close>

text \<open>
  Strings are \<^typ>\<open>string\<close>: one \<^typ>\<open>char\<close> per code unit, for text whose code units are
  below 256 (every literal of the source is ASCII). A value that may be \<open>undefined\<close> is an
  \<^typ>\<open>'a option\<close>. A string is truthy when it is defined and not empty.
\<close>

definition truthy :: "string option \<Rightarrow> bool" where
  "truthy x = (case x of None \<Rightarrow> False | Some s \<Rightarrow> s \<noteq> [])"

text \<open>\<open>x || d\<close> on strings.\<close>

definition or_else :: "string option \<Rightarrow> string \<Rightarrow> string" where
  "or_else x d = (case x of None \<Rightarrow> d | Some s \<Rightarrow> if s = [] then d else s)"

text \<open>\<open>s.includes(sub)\<close>.\<close>

fun str_includes :: "string \<Rightarrow> string \<Rightarrow> bool" where
  "str_includes [] sub = (sub = [])"
| "str_includes (c # cs) sub = (prefix sub (c # cs) \<or> str_includes cs sub)"

text \<open>
  \<open>s.trim()\<close>: the white space of \<open>String.prototype.trim\<close> among the code units below 256
  is TAB, LF, VT, FF, CR, SPACE and NBSP.
\<close>

definition is_space :: "char \<Rightarrow> bool" where
  "is_space c = (of_char c \<in> {9, 10, 11, 12, 13, 32, 160 :: nat})"

definition trim :: "string \<Rightarrow> string" where
  "trim s = rev (dropWhile is_space (rev (dropWhile is_space s)))"

text \<open>
  A thrown value, as the handlers of the application read it: \<open>e.message\<close>,
  \<open>e.error?.message\<close> and \<open>JSON.stringify(e)\<close>. \<open>new Error(msg)\<close> has the message and no
  enumerable property, so it stringifies to \<open>{}\<close>.
\<close>

record js_error =
  message :: "string option"
  error_message :: "string option"
  json :: string

definition Error :: "string \<Rightarrow> js_error" where
  "Error msg = \<lparr>message = Some msg, error_message = None, json = ''{}''\<rparr>"

text \<open>The value \<open>JSON.parse\<close> returns.\<close>

datatype json =
    JNull
  | JBool bool
  | JNumber int
  | JString string
  | JArray "json list"
  | JObject "(string \<times> json) list"

text \<open>Property read \<open>v.name\<close> (\<open>undefined\<close> is \<open>None\<close>).\<close>

fun property :: "json \<Rightarrow> string \<Rightarrow> json option" where
  "property (JObject fs) name = map_of fs name"
| "property _ name = None"

section \<open>The remote services, as the calls see them\<close>

text \<open>
  The schema of a structured response (\<open>Type.STRING\<close> with an optional \<open>enum\<close>,
  \<open>Type.OBJECT\<close> with \<open>properties\<close> and \<open>required\<close>).
\<close>

datatype schema =
    SString "string list option"
  | SObject "(string \<times> schema) list" "string list"

text \<open>
  A \<open>generateContent\<close> request: the model and the configuration. The prompt text is left
  out: no response of the model below depends on what the request says.
\<close>

record content_request =
  model :: string
  googleSearch :: bool
  responseSchema :: "schema option"
  thinkingBudget :: "nat option"

text \<open>
  Every effect a function has on the outside is an event appended to a trace: the
  credential dialog, a write of the credential flag, a remote call, a timed wait
  (milliseconds).
\<close>

datatype event =
    OpenSelectKey
  | SetApiKeySelected bool
  | GenerateContent content_request
  | GenerateVideos string
  | Sleep nat
  | GetVideosOperation

text \<open>A remote call either rejects with a thrown value or resolves with a response.\<close>

record grounding_web =
  web_uri :: "string option"
  web_title :: "string option"

record grounding_chunk =
  web :: "grounding_web option"

text \<open>
  A \<open>generateContent\<close> response: \<open>response.text\<close> and
  \<open>response.candidates?.[0]?.groundingMetadata?.groundingChunks\<close>.
\<close>

record content_response =
  resp_text :: "string option"
  groundingChunks :: "grounding_chunk list option"

record video =
  video_uri :: "string option"

record generated_video =
  video :: "video option"

record videos_response =
  generatedVideos :: "generated_video list option"

record operation =
  op_done :: bool
  response :: "videos_response option"

text \<open>
  The video service of one call of \<open>generateExplanationVideo\<close>: what \<open>generateVideos\<close>
  answers, and what the \<open>k\<close>-th \<open>getVideosOperation\<close> answers.
\<close>

record video_job =
  generateVideos :: "js_error + operation"
  getVideosOperation :: "nat \<Rightarrow> js_error + operation"

text \<open>\<open>process.env.API_KEY || ''\<close>\<close>

definition apiKey_of :: "string option \<Rightarrow> string" where
  "apiKey_of API_KEY = or_else API_KEY ''''"

section \<open>solveProblem\<close>

definition solve_responseSchema :: schema where
  "solve_responseSchema =
     SObject
       [(''solutionMarkdown'', SString None),
        (''visualPrompt'', SString None),
        (''confidence'', SString (Some [''High'', ''Medium'', ''Low'']))]
       [''solutionMarkdown'', ''visualPrompt'', ''confidence'']"

definition solve_request :: content_request where
  "solve_request =
     \<lparr>model = ''gemini-3-pro-preview'', googleSearch = False,
      responseSchema = Some solve_responseSchema, thinkingBudget = Some 4096\<rparr>"

text \<open>
  \<open>solveProblem\<close> with the outcomes of its effects as arguments: the environment's
  \<open>API_KEY\<close>, the outcome of reading the file (\<open>fileToGenerativePart\<close>), the outcome of the
  \<open>generateContent\<close> call, and the outcome of \<open>JSON.parse\<close> on the response text. The result
  is the thrown error or the returned value, with the trace of remote calls.
\<close>

definition solveProblem ::
  "string option \<Rightarrow> js_error + 'part \<Rightarrow> js_error + content_response \<Rightarrow> js_error + json
     \<Rightarrow> (js_error + json) \<times> event list" where
  "solveProblem API_KEY imagePart generateContent JSON_parse =
     (if apiKey_of API_KEY = [] then (Inl (Error ''API Key not found''), [])
      else case imagePart of
        Inl e \<Rightarrow> (Inl e, [])
      | Inr part \<Rightarrow>
          (case generateContent of
             Inl e \<Rightarrow> (Inl e, [GenerateContent solve_request])
           | Inr resp \<Rightarrow>
               if \<not> truthy (resp_text resp)
               then (Inl (Error ''No response from AI''), [GenerateContent solve_request])
               else (JSON_parse, [GenerateContent solve_request])))"

section \<open>generateExplanationVideo\<close>

text \<open>\<open>operation.response?.generatedVideos?.[0]?.video?.uri\<close>\<close>

definition first_video_uri :: "operation \<Rightarrow> string option" where
  "first_video_uri op =
     (case response op of
        None \<Rightarrow> None
      | Some r \<Rightarrow>
          (case generatedVideos r of
             None \<Rightarrow> None
           | Some [] \<Rightarrow> None
           | Some (g # _) \<Rightarrow> (case video g of None \<Rightarrow> None | Some v \<Rightarrow> video_uri v)))"

text \<open>
  The polling loop. A configuration is the current operation handle, the number of
  status requests issued so far and the trace. One step tests the loop condition and, when
  the operation is not done, runs the body once: wait 10000 ms, re-issue the status request,
  replace the handle. A step ends the loop (\<open>Inl\<close>) when the operation is done or the status
  request rejects.
\<close>

record poll_conf =
  operation :: operation
  polls :: nat
  events :: "event list"

type_synonym poll_result = "(js_error + operation) \<times> event list"

definition poll_step :: "(nat \<Rightarrow> js_error + operation) \<Rightarrow> poll_conf \<Rightarrow> poll_result + poll_conf" where
  "poll_step status c =
     (if op_done (operation c) then Inl (Inr (operation c), events c)
      else
        (case status (polls c) of
           Inl e \<Rightarrow> Inl (Inl e, events c @ [Sleep 10000, GetVideosOperation])
         | Inr op' \<Rightarrow>
             Inr \<lparr>operation = op', polls = Suc (polls c),
                  events = events c @ [Sleep 10000, GetVideosOperation]\<rparr>))"

text \<open>The loop itself: \<open>None\<close> when it never ends.\<close>

partial_function (option) poll_loop ::
  "(nat \<Rightarrow> js_error + operation) \<Rightarrow> poll_conf \<Rightarrow> poll_result option" where
  "poll_loop status c =
     (case poll_step status c of Inl r \<Rightarrow> Some r | Inr c' \<Rightarrow> poll_loop status c')"

text \<open>The first \<open>n\<close> steps of the loop: the result if it has ended, or where it stands.\<close>

fun poll_steps :: "(nat \<Rightarrow> js_error + operation) \<Rightarrow> nat \<Rightarrow> poll_conf \<Rightarrow> poll_result + poll_conf" where
  "poll_steps status 0 c = Inr c"
| "poll_steps status (Suc n) c =
     (case poll_step status c of Inl r \<Rightarrow> Inl r | Inr c' \<Rightarrow> poll_steps status n c')"

definition generateExplanationVideo ::
  "string option \<Rightarrow> video_job \<Rightarrow> string \<Rightarrow> ((js_error + string) \<times> event list) option" where
  "generateExplanationVideo API_KEY job visualPrompt =
     (let apiKey = apiKey_of API_KEY in
      case generateVideos job of
        Inl e \<Rightarrow> Some (Inl e, [GenerateVideos visualPrompt])
      | Inr op \<Rightarrow>
          (case poll_loop (getVideosOperation job)
                  \<lparr>operation = op, polls = 0, events = [GenerateVideos visualPrompt]\<rparr> of
             None \<Rightarrow> None
           | Some (Inl e, ev) \<Rightarrow> Some (Inl e, ev)
           | Some (Inr op', ev) \<Rightarrow>
               (case first_video_uri op' of
                  None \<Rightarrow> Some (Inl (Error ''Video generation failed or returned no URI''), ev)
                | Some videoUri \<Rightarrow>
                    if videoUri = []
                    then Some (Inl (Error ''Video generation failed or returned no URI''), ev)
                    else Some (Inr (videoUri @ ''&key='' @ apiKey), ev))))"

section \<open>performSearch\<close>

record web_source =
  uri :: string
  title :: string

record search_result =
  result_text :: string
  webSources :: "web_source list"
  verification :: string

text \<open>
  \<open>chunks.filter(chunk => chunk.web?.uri && chunk.web?.title).map(chunk => ({uri, title}))\<close>:
  a chunk gives a source when both fields are truthy.
\<close>

definition web_source_of :: "grounding_chunk \<Rightarrow> web_source option" where
  "web_source_of chunk =
     (case web chunk of
        None \<Rightarrow> None
      | Some w \<Rightarrow>
          (case (web_uri w, web_title w) of
             (Some u, Some t) \<Rightarrow> if u \<noteq> [] \<and> t \<noteq> [] then Some \<lparr>uri = u, title = t\<rparr> else None
           | _ \<Rightarrow> None))"

text \<open>
  A JavaScript \<open>Map\<close> is its entries in insertion order. \<open>set\<close> on a key that is present
  replaces the value and leaves the entry where it is; on a new key it appends. \<open>new Map(entries)\<close>
  sets the entries one after the other; \<open>values()\<close> reads the values in order.
\<close>

fun map_set :: "('k \<times> 'v) list \<Rightarrow> 'k \<Rightarrow> 'v \<Rightarrow> ('k \<times> 'v) list" where
  "map_set [] k v = [(k, v)]"
| "map_set ((k', v') # m) k v = (if k' = k then (k, v) # m else (k', v') # map_set m k v)"

definition new_Map :: "('k \<times> 'v) list \<Rightarrow> ('k \<times> 'v) list" where
  "new_Map entries = foldl (\<lambda>m (k, v). map_set m k v) [] entries"

definition map_values :: "('k \<times> 'v) list \<Rightarrow> 'v list" where
  "map_values m = map snd m"

definition uniqueSources :: "web_source list \<Rightarrow> web_source list" where
  "uniqueSources sources = map_values (new_Map (map (\<lambda>s. (uri s, s)) sources))"

definition search_request :: content_request where
  "search_request =
     \<lparr>model = ''gemini-2.5-flash'', googleSearch = True,
      responseSchema = None, thinkingBudget = None\<rparr>"

definition verify_request :: content_request where
  "verify_request =
     \<lparr>model = ''gemini-3-pro-preview'', googleSearch = False,
      responseSchema = None, thinkingBudget = None\<rparr>"

text \<open>
  \<open>performSearch\<close> with the environment's \<open>API_KEY\<close> and the outcomes of the Stage-1 and
  Stage-2 \<open>generateContent\<close> calls as arguments.
\<close>

definition performSearch ::
  "string option \<Rightarrow> js_error + content_response \<Rightarrow> js_error + content_response
     \<Rightarrow> (js_error + search_result) \<times> event list" where
  "performSearch API_KEY search verify =
     (if apiKey_of API_KEY = [] then (Inl (Error ''API Key not found''), [])
      else case search of
        Inl e \<Rightarrow> (Inl e, [GenerateContent search_request])
      | Inr searchResponse \<Rightarrow>
          (let searchText = or_else (resp_text searchResponse) ''No results found.'';
               chunks = (case groundingChunks searchResponse of None \<Rightarrow> [] | Some cs \<Rightarrow> cs);
               sources = List.map_filter web_source_of chunks;
               verificationText =
                 (case verify of
                    Inl verifyError \<Rightarrow> ''Could not verify result at this time.''
                  | Inr verificationResponse \<Rightarrow> or_else (resp_text verificationResponse) [])
           in (Inr \<lparr>result_text = searchText, webSources = uniqueSources sources,
                     verification = verificationText\<rparr>,
               [GenerateContent search_request, GenerateContent verify_request])))"

section \<open>translateText\<close>

definition translate_request :: content_request where
  "translate_request =
     \<lparr>model = ''gemini-2.5-flash'', googleSearch = False,
      responseSchema = None, thinkingBudget = None\<rparr>"

definition translateText ::
  "string option \<Rightarrow> js_error + content_response \<Rightarrow> string \<Rightarrow> string
     \<Rightarrow> (js_error + string) \<times> event list" where
  "translateText API_KEY generateContent source_text targetLanguage =
     (if apiKey_of API_KEY = [] then (Inl (Error ''API Key not found''), [])
      else case generateContent of
        Inl e \<Rightarrow> (Inl e, [GenerateContent translate_request])
      | Inr resp \<Rightarrow> (Inr (or_else (resp_text resp) source_text), [GenerateContent translate_request]))"

section \<open>The application state and its handlers (App.tsx)\<close>

datatype video_status = Idle | Generating | Completed | Failed

record solution_data =
  solutionMarkdown :: string
  visualPrompt :: string
  confidence :: string

text \<open>
  The state of \<open>App\<close> that the handlers below read and write; \<open>stored_history\<close> is the list
  kept under \<open>dolphin_search_history\<close> in local storage (\<open>None\<close>: no such key).
\<close>

record app_state =
  solution :: "solution_data option"
  videoStatus :: video_status
  videoUri :: "string option"
  errorMsg :: string
  apiKeySelected :: bool
  searchHistory :: "string list"
  stored_history :: "string list option"

text \<open>
  \<open>handleSelectKey\<close>. \<open>has_openSelectKey\<close> says whether the host gives
  \<open>window.aistudio.openSelectKey\<close>; the dialog is taken to complete. \<open>closure_errorMsg\<close> is the
  \<open>errorMsg\<close> of the render the handler was created in.
\<close>

definition handleSelectKey ::
  "bool \<Rightarrow> string \<Rightarrow> app_state \<times> event list \<Rightarrow> app_state \<times> event list" where
  "handleSelectKey has_openSelectKey closure_errorMsg sev =
     (case sev of (s, ev) \<Rightarrow>
        if has_openSelectKey
        then (s\<lparr>apiKeySelected := True,
                errorMsg := (if str_includes closure_errorMsg ''API Key'' then [] else errorMsg s)\<rparr>,
              ev @ [OpenSelectKey, SetApiKeySelected True])
        else (s, ev))"

text \<open>The test of the catch block of \<open>handleGenerateVideo\<close>.\<close>

definition isEntityNotFound :: "js_error \<Rightarrow> bool" where
  "isEntityNotFound e =
     (let errorString = json e;
          errorMessage = or_else (message e) (or_else (error_message e) [])
      in str_includes errorMessage ''Requested entity was not found''
         \<or> str_includes errorString ''Requested entity was not found''
         \<or> str_includes errorString ''404'')"

text \<open>
  \<open>handleGenerateVideo\<close>, run on the state \<open>s0\<close> of the render it was created in. The first
  call of \<open>generateExplanationVideo\<close> sees the key \<open>API_KEY1\<close> and the service \<open>job1\<close>, the
  retry (after the credential dialog) sees \<open>API_KEY2\<close> and \<open>job2\<close>. \<open>None\<close>: a call never
  returns.
\<close>

definition handleGenerateVideo ::
  "bool \<Rightarrow> string option \<Rightarrow> video_job \<Rightarrow> string option \<Rightarrow> video_job \<Rightarrow> app_state
     \<Rightarrow> (app_state \<times> event list) option" where
  "handleGenerateVideo has_openSelectKey API_KEY1 job1 API_KEY2 job2 s0 =
     (case solution s0 of
        None \<Rightarrow> Some (s0, [])
      | Some sol \<Rightarrow>
          if visualPrompt sol = [] then Some (s0, [])
          else
            (case (if \<not> apiKeySelected s0
                   then handleSelectKey has_openSelectKey (errorMsg s0) (s0, [])
                   else (s0, [])) of
               (s1, ev1) \<Rightarrow>
                 (let s2 = s1\<lparr>videoStatus := Generating\<rparr> in
                  case generateExplanationVideo API_KEY1 job1 (visualPrompt sol) of
                    None \<Rightarrow> None
                  | Some (Inr u, tr) \<Rightarrow>
                      Some (s2\<lparr>videoUri := Some u, videoStatus := Completed\<rparr>, ev1 @ tr)
                  | Some (Inl e, tr) \<Rightarrow>
                      if isEntityNotFound e
                      then
                        (case handleSelectKey has_openSelectKey (errorMsg s0)
                                (s2\<lparr>apiKeySelected := False\<rparr>,
                                 ev1 @ tr @ [SetApiKeySelected False]) of
                           (s3, ev3) \<Rightarrow>
                             (let s4 = s3\<lparr>videoStatus := Generating\<rparr> in
                              case generateExplanationVideo API_KEY2 job2 (visualPrompt sol) of
                                None \<Rightarrow> None
                              | Some (Inr u, tr2) \<Rightarrow>
                                  Some (s4\<lparr>videoUri := Some u, videoStatus := Completed\<rparr>,
                                        ev3 @ tr2)
                              | Some (Inl retryError, tr2) \<Rightarrow>
                                  Some (s4\<lparr>videoStatus := Failed\<rparr>, ev3 @ tr2)))
                      else Some (s2\<lparr>videoStatus := Failed\<rparr>, ev1 @ tr))))"

text \<open>\<open>addToHistory\<close>: the new list is set as the state and written to local storage.\<close>

definition addToHistory :: "string \<Rightarrow> app_state \<Rightarrow> app_state" where
  "addToHistory query s =
     (let cleanQuery = trim query in
      if cleanQuery = [] then s
      else
        (let newHistory = take 5 (cleanQuery # filter (\<lambda>q. q \<noteq> cleanQuery) (searchHistory s))
         in s\<lparr>searchHistory := newHistory, stored_history := Some newHistory\<rparr>))"

section \<open>The translation caches of the two viewers\<close>

datatype language = English | Hindi

fun language_name :: "language \<Rightarrow> string" where
  "language_name English = ''English''"
| "language_name Hindi = ''Hindi''"

record viewer_state =
  language :: language
  translationCache :: "string \<rightharpoonup> string"
  isTranslating :: bool

text \<open>\<open>handleLanguageChange\<close> of \<open>SolutionViewer\<close>, and what the viewer then shows.\<close>

definition SolutionViewer_handleLanguageChange ::
  "string option \<Rightarrow> js_error + content_response \<Rightarrow> solution_data \<Rightarrow> language \<Rightarrow> viewer_state
     \<Rightarrow> viewer_state \<times> event list" where
  "SolutionViewer_handleLanguageChange API_KEY generateContent data newLang s =
     (if newLang = language s then (s, [])
      else
        (let s1 = s\<lparr>language := newLang\<rparr> in
         if newLang = English then (s1, [])
         else if truthy (translationCache s (language_name newLang)) then (s1, [])
         else
           (case translateText API_KEY generateContent (solutionMarkdown data)
                   (language_name newLang) of
              (Inr translated, ev) \<Rightarrow>
                (s1\<lparr>translationCache := (translationCache s1)(language_name newLang \<mapsto> translated),
                    isTranslating := False\<rparr>, ev)
            | (Inl err, ev) \<Rightarrow> (s1\<lparr>language := English, isTranslating := False\<rparr>, ev))))"


text \<open>
  \<open>handleLanguageChange\<close> of \<open>SearchResults\<close>: the main text and, when there is one, the
  verification are translated by two calls and cached under two keys.
\<close>

definition SearchResults_handleLanguageChange ::
  "string option \<Rightarrow> js_error + content_response \<Rightarrow> js_error + content_response
     \<Rightarrow> search_result \<Rightarrow> language \<Rightarrow> viewer_state \<Rightarrow> viewer_state \<times> event list" where
  "SearchResults_handleLanguageChange API_KEY generateMain generateVerify data newLang s =
     (if newLang = language s then (s, [])
      else
        (let s1 = s\<lparr>language := newLang\<rparr> in
         if newLang = English then (s1, [])
         else
           (let textKey = language_name newLang @ ''_text'';
                verifyKey = language_name newLang @ ''_verify''
            in if truthy (translationCache s textKey) then (s1, [])
               else
                 (case translateText API_KEY generateMain (result_text data)
                         (language_name newLang) of
                    (Inl err, ev) \<Rightarrow> (s1\<lparr>language := English, isTranslating := False\<rparr>, ev)
                  | (Inr translatedMain, ev) \<Rightarrow>
                      (case (if verification data \<noteq> []
                             then translateText API_KEY generateVerify (verification data)
                                    (language_name newLang)
                             else (Inr [], [])) of
                         (Inl err, ev2) \<Rightarrow>
                           (s1\<lparr>language := English, isTranslating := False\<rparr>, ev @ ev2)
                       | (Inr translatedVerify, ev2) \<Rightarrow>
                           (s1\<lparr>translationCache :=
                                 (if translatedVerify \<noteq> []
                                  then (translationCache s1)
                                         (textKey \<mapsto> translatedMain, verifyKey \<mapsto> translatedVerify)
                                  else (translationCache s1)(textKey \<mapsto> translatedMain)),
                               isTranslating := False\<rparr>, ev @ ev2))))))"



section \<open>Notions used to state the properties\<close>

text \<open>The distinct elements of a list, each at the place of its first occurrence.\<close>

definition first_seen :: "'a list \<Rightarrow> 'a list" where
  "first_seen xs = rev (remdups (rev xs))"

text \<open>The trace of \<open>n\<close> runs of the body of the polling loop.\<close>

definition cycles :: "nat \<Rightarrow> event list" where
  "cycles n = concat (replicate n [Sleep 10000, GetVideosOperation])"

text \<open>
  The handle the polling loop holds at its \<open>n\<close>-th read of \<open>done\<close>, when the submission
  returned \<open>op0\<close>: each status request that resolves replaces the handle.
\<close>

fun handle_at :: "operation \<Rightarrow> (nat \<Rightarrow> js_error + operation) \<Rightarrow> nat \<Rightarrow> operation" where
  "handle_at op0 status 0 = op0"
| "handle_at op0 status (Suc k) =
     (case status k of Inr op' \<Rightarrow> op' | Inl e \<Rightarrow> handle_at op0 status k)"

text \<open>A grounding chunk that cites the page \<open>u\<close> under the title \<open>t\<close>.\<close>

definition citation :: "string \<Rightarrow> string \<Rightarrow> grounding_chunk" where
  "citation u t = \<lparr>web = Some \<lparr>web_uri = Some u, web_title = Some t\<rparr>\<rparr>"

section \<open>The JavaScript Map and the deduplication of sources\<close>

lemma first_seen_snoc:
  "first_seen (xs @ [x]) = (if x \<in> set xs then first_seen xs else first_seen xs @ [x])"
  by (simp add: first_seen_def)

lemma distinct_first_seen: "distinct (first_seen xs)"
  by (simp add: first_seen_def)

lemma set_first_seen: "set (first_seen xs) = set xs"
  by (simp add: first_seen_def)

text \<open>
  Setting a key in a map whose entries are tabulated from distinct keys: the value changes
  where the key is, and a new key goes to the end.
\<close>

lemma map_set_tabulate:
  "distinct us \<Longrightarrow>
   map_set (map (\<lambda>u. (u, g u)) us) k v =
     map (\<lambda>u. (u, (g(k := v)) u)) (if k \<in> set us then us else us @ [k])"
  by (induction us) auto

lemma new_Map_snoc: "new_Map (es @ [(k, v)]) = map_set (new_Map es) k v"
  by (simp add: new_Map_def)

lemma new_Map_closed:
  "new_Map (map (\<lambda>s. (f s, s)) ws) =
     map (\<lambda>u. (u, last (filter (\<lambda>t. f t = u) ws))) (first_seen (map f ws))"
proof (induction ws rule: rev_induct)
  case Nil
  show ?case by (simp add: new_Map_def first_seen_def)
next
  case (snoc s ws)
  let ?keys = "first_seen (map f ws)"
  have "new_Map (map (\<lambda>s. (f s, s)) (ws @ [s])) =
          map_set (new_Map (map (\<lambda>s. (f s, s)) ws)) (f s) s"
    by (simp add: new_Map_snoc)
  also have "\<dots> = map (\<lambda>u. (u, ((\<lambda>u. last (filter (\<lambda>t. f t = u) ws))(f s := s)) u))
                     (if f s \<in> set ?keys then ?keys else ?keys @ [f s])"
    unfolding snoc.IH by (rule map_set_tabulate) (rule distinct_first_seen)
  also have "\<dots> = map (\<lambda>u. (u, last (filter (\<lambda>t. f t = u) (ws @ [s]))))
                     (first_seen (map f (ws @ [s])))"
    by (auto simp: first_seen_snoc set_first_seen)
  finally show ?case .
qed

lemma uniqueSources_closed:
  "uniqueSources ws = map (\<lambda>u. last (filter (\<lambda>s. uri s = u) ws)) (first_seen (map uri ws))"
  by (simp add: uniqueSources_def map_values_def new_Map_closed comp_def)

text \<open>A chunk gives a source exactly when its URI and its title are there and not empty.\<close>

lemma web_source_of_Some:
  "web_source_of chunk = Some src \<longleftrightarrow>
     web chunk = Some \<lparr>web_uri = Some (uri src), web_title = Some (title src)\<rparr>
     \<and> uri src \<noteq> [] \<and> title src \<noteq> []"
  by (cases "web chunk") (auto simp: web_source_of_def split: option.splits)

lemma web_source_of_citation:
  "web_source_of (citation u t) = (if u \<noteq> [] \<and> t \<noteq> [] then Some \<lparr>uri = u, title = t\<rparr> else None)"
  by (simp add: web_source_of_def citation_def)

lemma performSearch_Inr:
  "apiKey_of API_KEY \<noteq> [] \<Longrightarrow>
   performSearch API_KEY (Inr resp) verify =
     (Inr \<lparr>result_text = or_else (resp_text resp) ''No results found.'',
           webSources = uniqueSources (List.map_filter web_source_of
                          (case groundingChunks resp of None \<Rightarrow> [] | Some cs \<Rightarrow> cs)),
           verification = (case verify of
                             Inl verifyError \<Rightarrow> ''Could not verify result at this time.''
                           | Inr verificationResponse \<Rightarrow> or_else (resp_text verificationResponse) [])\<rparr>,
      [GenerateContent search_request, GenerateContent verify_request])"
  by (simp add: performSearch_def Let_def)

text \<open>
  Claim C1, as the code has it. \<open>performSearch\<close> keeps the citations that have a non-empty
  URI and a non-empty title and deduplicates them by URI; each URI stays at the place of its
  first occurrence and carries the title of its last occurrence (the claim says: of its first).
  For the citations \<open>[(uriA,t1),(uriB,t2),(uriA,t3)]\<close> the sources are
  \<open>[(uriA,t3),(uriB,t2)]\<close>.
\<close>

theorem performSearch_webSources_last_title:
  assumes "apiKey_of API_KEY \<noteq> []"
  shows "(\<forall>resp kept.
            kept = List.map_filter web_source_of
                     (case groundingChunks resp of None \<Rightarrow> [] | Some cs \<Rightarrow> cs) \<longrightarrow>
            (\<exists>r ev. performSearch API_KEY (Inr resp) verify = (Inr r, ev) \<and>
               webSources r =
                 map (\<lambda>u. last (filter (\<lambda>s. uri s = u) kept)) (first_seen (map uri kept))))
       \<and> (\<forall>uriA uriB t1 t2 t3 body.
            uriA \<noteq> uriB \<and> uriA \<noteq> [] \<and> uriB \<noteq> [] \<and> t1 \<noteq> [] \<and> t2 \<noteq> [] \<and> t3 \<noteq> [] \<longrightarrow>
            (\<exists>r ev. performSearch API_KEY
                       (Inr \<lparr>resp_text = body,
                             groundingChunks =
                               Some [citation uriA t1, citation uriB t2, citation uriA t3]\<rparr>)
                       verify = (Inr r, ev) \<and>
               webSources r = [\<lparr>uri = uriA, title = t3\<rparr>, \<lparr>uri = uriB, title = t2\<rparr>]))"
proof (intro conjI allI impI)
  fix resp :: content_response and kept
  assume "kept = List.map_filter web_source_of
                   (case groundingChunks resp of None \<Rightarrow> [] | Some cs \<Rightarrow> cs)"
  then show "\<exists>r ev. performSearch API_KEY (Inr resp) verify = (Inr r, ev) \<and>
               webSources r =
                 map (\<lambda>u. last (filter (\<lambda>s. uri s = u) kept)) (first_seen (map uri kept))"
    using assms by (simp add: performSearch_Inr uniqueSources_closed)
next
  fix uriA uriB t1 t2 t3 :: string and body
  assume "uriA \<noteq> uriB \<and> uriA \<noteq> [] \<and> uriB \<noteq> [] \<and> t1 \<noteq> [] \<and> t2 \<noteq> [] \<and> t3 \<noteq> []"
  then show "\<exists>r ev. performSearch API_KEY
                       (Inr \<lparr>resp_text = body,
                             groundingChunks =
                               Some [citation uriA t1, citation uriB t2, citation uriA t3]\<rparr>)
                       verify = (Inr r, ev) \<and>
               webSources r = [\<lparr>uri = uriA, title = t3\<rparr>, \<lparr>uri = uriB, title = t2\<rparr>]"
    using assms
    by (simp add: performSearch_Inr web_source_of_citation
        uniqueSources_def new_Map_def map_values_def)
qed

theorem performSearch_webSources_last_title_witness:
  "apiKey_of (Some ''k'') \<noteq> [] \<and>
   (\<exists>r ev. performSearch (Some ''k'')
              (Inr \<lparr>resp_text = None,
                    groundingChunks =
                      Some [citation ''a'' ''1'', citation ''b'' ''2'', citation ''a'' ''3'']\<rparr>)
              (Inl (Error ''x'')) = (Inr r, ev) \<and>
      webSources r = [\<lparr>uri = ''a'', title = ''3''\<rparr>, \<lparr>uri = ''b'', title = ''2''\<rparr>])"
proof -
  have key: "apiKey_of (Some ''k'') \<noteq> []"
    by (simp add: apiKey_of_def or_else_def)
  from performSearch_webSources_last_title [OF key, of "Inl (Error ''x'')"]
  have "\<exists>r ev. performSearch (Some ''k'')
              (Inr \<lparr>resp_text = None,
                    groundingChunks =
                      Some [citation ''a'' ''1'', citation ''b'' ''2'', citation ''a'' ''3'']\<rparr>)
              (Inl (Error ''x'')) = (Inr r, ev) \<and>
      webSources r = [\<lparr>uri = ''a'', title = ''3''\<rparr>, \<lparr>uri = ''b'', title = ''2''\<rparr>]"
    by simp
  with key show ?thesis by simp
qed

text \<open>
  The claim as it is written fails: on \<open>[(a,1),(b,2),(a,3)]\<close> the sources are not
  \<open>[(a,1),(b,2)]\<close>.
\<close>

theorem performSearch_first_title_counterexample:
  "fst (performSearch (Some ''k'')
          (Inr \<lparr>resp_text = None,
                groundingChunks =
                  Some [citation ''a'' ''1'', citation ''b'' ''2'', citation ''a'' ''3'']\<rparr>)
          (Inl (Error ''x'')))
   \<noteq> Inr \<lparr>result_text = ''No results found.'',
           webSources = [\<lparr>uri = ''a'', title = ''1''\<rparr>, \<lparr>uri = ''b'', title = ''2''\<rparr>],
           verification = ''Could not verify result at this time.''\<rparr>"
  by (simp add: performSearch_def apiKey_of_def or_else_def
      web_source_of_def citation_def uniqueSources_def new_Map_def map_values_def)


section \<open>Search: the verification stage\<close>

text \<open>
  Claim C2. When the Stage-1 search has succeeded and the Stage-2 verification call rejects,
  \<open>performSearch\<close> returns a result: its text and sources are those of Stage 1 (the same as
  when the verification succeeds) and its verification is the fixed fallback string.
\<close>

theorem performSearch_verification_failure:
  assumes "apiKey_of API_KEY \<noteq> []"
  shows "performSearch API_KEY (Inr resp) (Inl verifyError) =
           (Inr \<lparr>result_text = or_else (resp_text resp) ''No results found.'',
                 webSources = uniqueSources (List.map_filter web_source_of
                                (case groundingChunks resp of None \<Rightarrow> [] | Some cs \<Rightarrow> cs)),
                 verification = ''Could not verify result at this time.''\<rparr>,
            [GenerateContent search_request, GenerateContent verify_request])
       \<and> (\<exists>r r' ev ev'.
             performSearch API_KEY (Inr resp) (Inl verifyError) = (Inr r, ev) \<and>
             performSearch API_KEY (Inr resp) (Inr verificationResponse) = (Inr r', ev') \<and>
             result_text r = result_text r' \<and> webSources r = webSources r')"
  using assms by (simp add: performSearch_Inr)

theorem performSearch_verification_failure_witness:
  "apiKey_of (Some ''k'') \<noteq> [] \<and>
   fst (performSearch (Some ''k'')
          (Inr \<lparr>resp_text = Some ''answer'', groundingChunks = Some [citation ''a'' ''1'']\<rparr>)
          (Inl (Error ''timeout'')))
     = Inr \<lparr>result_text = ''answer'', webSources = [\<lparr>uri = ''a'', title = ''1''\<rparr>],
             verification = ''Could not verify result at this time.''\<rparr>"
proof -
  have key: "apiKey_of (Some ''k'') \<noteq> []"
    by (simp add: apiKey_of_def or_else_def)
  from performSearch_verification_failure [OF key] key show ?thesis
    by (simp add: or_else_def web_source_of_citation uniqueSources_def new_Map_def
        map_values_def)
qed

section \<open>Translation: an empty response\<close>

text \<open>
  Claim C9. When the translation call succeeds with an empty or absent text,
  \<open>translateText\<close> returns the source text unchanged: the caller gets what it would get from
  a service that answers with the source text itself.
\<close>

theorem translateText_empty_response:
  assumes "apiKey_of API_KEY \<noteq> []" and "\<not> truthy (resp_text resp)"
  shows "translateText API_KEY (Inr resp) source_text targetLanguage =
           (Inr source_text, [GenerateContent translate_request])
       \<and> translateText API_KEY (Inr resp) source_text targetLanguage =
           translateText API_KEY (Inr (resp\<lparr>resp_text := Some source_text\<rparr>))
             source_text targetLanguage"
  using assms by (auto simp: translateText_def or_else_def truthy_def split: option.splits)

theorem translateText_empty_response_witness:
  "apiKey_of (Some ''k'') \<noteq> [] \<and>
   \<not> truthy (resp_text \<lparr>resp_text = Some [], groundingChunks = None\<rparr>) \<and>
   \<not> truthy (resp_text \<lparr>resp_text = None, groundingChunks = None\<rparr>) \<and>
   fst (translateText (Some ''k'') (Inr \<lparr>resp_text = Some [], groundingChunks = None\<rparr>)
          ''x = 1'' ''Hindi'') = Inr ''x = 1'' \<and>
   fst (translateText (Some ''k'') (Inr \<lparr>resp_text = None, groundingChunks = None\<rparr>)
          ''x = 1'' ''Hindi'') = Inr ''x = 1''"
proof -
  have key: "apiKey_of (Some ''k'') \<noteq> []"
    by (simp add: apiKey_of_def or_else_def)
  have e1: "\<not> truthy (resp_text \<lparr>resp_text = Some [], groundingChunks = None\<rparr>)"
    and e2: "\<not> truthy (resp_text \<lparr>resp_text = None, groundingChunks = None\<rparr>)"
    by (simp_all add: truthy_def)
  from translateText_empty_response [OF key e1] translateText_empty_response [OF key e2]
    key e1 e2
  show ?thesis by simp
qed

section \<open>Solving: the response is not validated\<close>

text \<open>
  Claim C5, as the code has it. \<open>solveProblem\<close> asks the service for the three-field schema
  whose \<open>confidence\<close> is one of High, Medium, Low, and returns what \<open>JSON.parse\<close> makes of any
  non-empty response text, unchanged: the code itself validates nothing.
\<close>

theorem solveProblem_returns_parsed_response:
  assumes "apiKey_of API_KEY \<noteq> []" and "truthy (resp_text resp)"
  shows "solveProblem API_KEY (Inr part) (Inr resp) parsed =
           (parsed, [GenerateContent solve_request])
       \<and> responseSchema solve_request =
           Some (SObject
             [(''solutionMarkdown'', SString None),
              (''visualPrompt'', SString None),
              (''confidence'', SString (Some [''High'', ''Medium'', ''Low'']))]
             [''solutionMarkdown'', ''visualPrompt'', ''confidence''])"
  using assms by (simp add: solveProblem_def solve_request_def solve_responseSchema_def)

theorem solveProblem_returns_parsed_response_witness:
  \<open>apiKey_of (Some ''k'') \<noteq> [] \<and>
   truthy (resp_text \<lparr>resp_text = Some ''{"solutionMarkdown":"s","visualPrompt":"p","confidence":"High"}'',
                      groundingChunks = None\<rparr>) \<and>
   fst (solveProblem (Some ''k'') (Inr ())
          (Inr \<lparr>resp_text = Some ''{"solutionMarkdown":"s","visualPrompt":"p","confidence":"High"}'',
                groundingChunks = None\<rparr>)
          (Inr (JObject [(''solutionMarkdown'', JString ''s''), (''visualPrompt'', JString ''p''),
                         (''confidence'', JString ''High'')])))
     = Inr (JObject [(''solutionMarkdown'', JString ''s''), (''visualPrompt'', JString ''p''),
                     (''confidence'', JString ''High'')])\<close>
proof -
  have key: "apiKey_of (Some ''k'') \<noteq> []"
    by (simp add: apiKey_of_def or_else_def)
  have body: \<open>truthy (resp_text \<lparr>resp_text = Some ''{"solutionMarkdown":"s","visualPrompt":"p","confidence":"High"}'',
                      groundingChunks = None\<rparr>)\<close>
    by (simp add: truthy_def)
  from solveProblem_returns_parsed_response [OF key body, of "()"] key body show ?thesis by simp
qed

text \<open>
  The claim as it is written fails: a response whose confidence is \<open>Maybe\<close> is returned.
\<close>

theorem solveProblem_fourth_confidence_counterexample:
  \<open>fst (solveProblem (Some ''k'') (Inr ())
          (Inr \<lparr>resp_text = Some ''{"solutionMarkdown":"s","visualPrompt":"p","confidence":"Maybe"}'',
                groundingChunks = None\<rparr>)
          (Inr (JObject [(''solutionMarkdown'', JString ''s''), (''visualPrompt'', JString ''p''),
                         (''confidence'', JString ''Maybe'')])))
     = Inr (JObject [(''solutionMarkdown'', JString ''s''), (''visualPrompt'', JString ''p''),
                     (''confidence'', JString ''Maybe'')])
   \<and> property (JObject [(''solutionMarkdown'', JString ''s''), (''visualPrompt'', JString ''p''),
                        (''confidence'', JString ''Maybe'')]) ''confidence''
       = Some (JString ''Maybe'')
   \<and> ''Maybe'' \<notin> {''High'', ''Medium'', ''Low''}\<close>
  by (simp add: solveProblem_def apiKey_of_def or_else_def truthy_def)


section \<open>The polling loop\<close>

text \<open>The loop returns \<open>r\<close> exactly when some number of steps ends it with \<open>r\<close>.\<close>

lemma poll_steps_loop: "poll_steps status n c = Inl r \<Longrightarrow> poll_loop status c = Some r"
proof (induction n arbitrary: c)
  case 0
  then show ?case by simp
next
  case (Suc n)
  show ?case
  proof (cases "poll_step status c")
    case (Inl r')
    with Suc.prems show ?thesis by (subst poll_loop.simps) simp
  next
    case (Inr c')
    with Suc.prems have "poll_steps status n c' = Inl r" by simp
    then have "poll_loop status c' = Some r" by (rule Suc.IH)
    with Inr show ?thesis by (subst poll_loop.simps) simp
  qed
qed

lemma poll_loop_steps:
  assumes "poll_loop status c = Some r"
  shows "\<exists>n. poll_steps status n c = Inl r"
proof (rule poll_loop.raw_induct
    [where P = "\<lambda>status c r. \<exists>n. poll_steps status n c = Inl r", OF _ assms])
  fix f :: "(nat \<Rightarrow> js_error + operation) \<Rightarrow> poll_conf \<Rightarrow> poll_result option"
    and status c r
  assume IH: "\<And>status c r. f status c = Some r \<Longrightarrow> \<exists>n. poll_steps status n c = Inl r"
    and eq: "(case poll_step status c of Inl r \<Rightarrow> Some r | Inr c' \<Rightarrow> f status c') = Some r"
  show "\<exists>n. poll_steps status n c = Inl r"
  proof (cases "poll_step status c")
    case (Inl r')
    with eq have "poll_steps status (Suc 0) c = Inl r" by simp
    then show ?thesis ..
  next
    case (Inr c')
    with eq have "f status c' = Some r" by simp
    then obtain n where "poll_steps status n c' = Inl r" using IH by blast
    with Inr have "poll_steps status (Suc n) c = Inl r" by simp
    then show ?thesis ..
  qed
qed

text \<open>While the loop runs, it is where its steps have taken it.\<close>

lemma poll_loop_skip:
  "poll_steps status n c = Inr c' \<Longrightarrow> poll_loop status c = poll_loop status c'"
proof (induction n arbitrary: c)
  case 0
  then show ?case by simp
next
  case (Suc n)
  then obtain c1 where c1: "poll_step status c = Inr c1" and "poll_steps status n c1 = Inr c'"
    by (cases "poll_step status c") simp_all
  then have "poll_loop status c1 = poll_loop status c'" using Suc.IH by blast
  with c1 show ?case by (subst poll_loop.simps) simp
qed

lemma cycles_Suc: "cycles n @ [Sleep 10000, GetVideosOperation] = cycles (Suc n)"
  unfolding cycles_def by (induction n) simp_all

text \<open>Every step that does not end the loop adds one cycle to the trace.\<close>

lemma poll_steps_trace:
  "poll_steps status n c = Inl (r, ev) \<Longrightarrow> \<exists>k. ev = events c @ cycles k"
proof (induction n arbitrary: c)
  case 0
  then show ?case by simp
next
  case (Suc n)
  show ?case
  proof (cases "poll_step status c")
    case (Inl r')
    with Suc.prems have "r' = (r, ev)" by simp
    with Inl have "ev = events c @ cycles 0 \<or> ev = events c @ cycles (Suc 0)"
      by (auto simp: poll_step_def cycles_def split: if_splits sum.splits)
    then show ?thesis by blast
  next
    case (Inr c')
    with Suc.prems have "poll_steps status n c' = Inl (r, ev)" by simp
    then obtain k where "ev = events c' @ cycles k" using Suc.IH by blast
    moreover from Inr have "events c' = events c @ cycles (Suc 0)"
      by (auto simp: poll_step_def cycles_def split: if_splits sum.splits)
    moreover have "cycles (Suc 0) @ cycles k = cycles (Suc k)"
      by (simp add: cycles_def)
    ultimately have "ev = events c @ cycles (Suc k)" by simp
    then show ?thesis ..
  qed
qed

text \<open>
  The loop on a sequence of operation handles: \<open>ops 0\<close> is what the submission returns and
  \<open>ops (Suc k)\<close> what the \<open>k\<close>-th status request returns. While no handle is done, \<open>n\<close> steps
  are \<open>n\<close> cycles.
\<close>

lemma poll_steps_running:
  "(\<forall>k. m \<le> k \<and> k < m + n \<longrightarrow> \<not> op_done (ops k)) \<Longrightarrow>
   poll_steps (\<lambda>k. Inr (ops (Suc k))) n
       \<lparr>operation = ops m, polls = m, events = ev @ cycles m\<rparr> =
     Inr \<lparr>operation = ops (m + n), polls = m + n, events = ev @ cycles (m + n)\<rparr>"
proof (induction n arbitrary: m)
  case 0
  show ?case by simp
next
  case (Suc n)
  have nd: "\<not> op_done (ops m)" using Suc.prems by simp
  have step: "poll_step (\<lambda>k. Inr (ops (Suc k)))
                 \<lparr>operation = ops m, polls = m, events = ev @ cycles m\<rparr> =
              Inr \<lparr>operation = ops (Suc m), polls = Suc m, events = ev @ cycles (Suc m)\<rparr>"
    using nd by (simp add: poll_step_def cycles_Suc)
  have "\<forall>k. Suc m \<le> k \<and> k < Suc m + n \<longrightarrow> \<not> op_done (ops k)" using Suc.prems by simp
  from Suc.IH [OF this] step show ?case by simp
qed

lemma poll_steps_running0:
  assumes "\<forall>k<n. \<not> op_done (ops k)"
  shows "poll_steps (\<lambda>k. Inr (ops (Suc k))) n
           \<lparr>operation = ops 0, polls = 0, events = [GenerateVideos p]\<rparr> =
         Inr \<lparr>operation = ops n, polls = n, events = GenerateVideos p # cycles n\<rparr>"
proof -
  have "\<forall>k. 0 \<le> k \<and> k < 0 + n \<longrightarrow> \<not> op_done (ops k)" using assms by simp
  from poll_steps_running [OF this, of "[GenerateVideos p]"] show ?thesis
    by (simp add: cycles_def)
qed

lemma poll_loop_done_at:
  assumes "\<forall>k<n. \<not> op_done (ops k)" and "op_done (ops n)"
  shows "poll_loop (\<lambda>k. Inr (ops (Suc k)))
           \<lparr>operation = ops 0, polls = 0, events = [GenerateVideos p]\<rparr> =
         Some (Inr (ops n), GenerateVideos p # cycles n)"
proof -
  have "poll_loop (\<lambda>k. Inr (ops (Suc k)))
           \<lparr>operation = ops 0, polls = 0, events = [GenerateVideos p]\<rparr> =
        poll_loop (\<lambda>k. Inr (ops (Suc k)))
           \<lparr>operation = ops n, polls = n, events = GenerateVideos p # cycles n\<rparr>"
    by (rule poll_loop_skip) (rule poll_steps_running0 [OF assms(1)])
  also have "\<dots> = Some (Inr (ops n), GenerateVideos p # cycles n)"
    using assms(2) by (subst poll_loop.simps) (simp add: poll_step_def)
  finally show ?thesis .
qed

lemma poll_loop_never_done:
  assumes "\<forall>k. \<not> op_done (ops k)"
  shows "poll_loop (\<lambda>k. Inr (ops (Suc k)))
           \<lparr>operation = ops 0, polls = 0, events = [GenerateVideos p]\<rparr> = None"
proof (rule ccontr)
  assume "poll_loop (\<lambda>k. Inr (ops (Suc k)))
           \<lparr>operation = ops 0, polls = 0, events = [GenerateVideos p]\<rparr> \<noteq> None"
  then obtain r where "poll_loop (\<lambda>k. Inr (ops (Suc k)))
           \<lparr>operation = ops 0, polls = 0, events = [GenerateVideos p]\<rparr> = Some r" by blast
  then obtain n where "poll_steps (\<lambda>k. Inr (ops (Suc k))) n
           \<lparr>operation = ops 0, polls = 0, events = [GenerateVideos p]\<rparr> = Inl r"
    using poll_loop_steps by blast
  moreover have "\<forall>k<n. \<not> op_done (ops k)" using assms by simp
  ultimately show False using poll_steps_running0 [of n ops p] by simp
qed

text \<open>\<open>generateExplanationVideo\<close> on a sequence of handles that is done at the \<open>n\<close>-th read.\<close>

lemma generateExplanationVideo_done_at:
  assumes "\<forall>k<n. \<not> op_done (ops k)" and "op_done (ops n)"
  shows "generateExplanationVideo API_KEY
           \<lparr>generateVideos = Inr (ops 0), getVideosOperation = (\<lambda>k. Inr (ops (Suc k)))\<rparr> p =
         Some (if truthy (first_video_uri (ops n))
               then Inr (or_else (first_video_uri (ops n)) [] @ ''&key='' @ apiKey_of API_KEY)
               else Inl (Error ''Video generation failed or returned no URI''),
               GenerateVideos p # cycles n)"
  by (simp add: generateExplanationVideo_def poll_loop_done_at [OF assms] truthy_def or_else_def
      split: option.splits)

text \<open>Whatever a call of \<open>generateExplanationVideo\<close> returns, it has submitted one job.\<close>

lemma generateExplanationVideo_trace:
  assumes "generateExplanationVideo API_KEY job p = Some (r, ev)"
  shows "\<exists>k. ev = GenerateVideos p # cycles k"
proof (cases "generateVideos job")
  case (Inl e)
  with assms have "ev = GenerateVideos p # cycles 0"
    by (simp add: generateExplanationVideo_def cycles_def)
  then show ?thesis ..
next
  case (Inr op)
  let ?c = "\<lparr>operation = op, polls = 0, events = [GenerateVideos p]\<rparr>"
  from assms Inr obtain r' where "poll_loop (getVideosOperation job) ?c = Some (r', ev)"
    by (auto simp: generateExplanationVideo_def split: option.splits sum.splits if_splits)
  then obtain n where "poll_steps (getVideosOperation job) n ?c = Inl (r', ev)"
    using poll_loop_steps by blast
  then obtain k where "ev = events ?c @ cycles k" using poll_steps_trace by blast
  then have "ev = GenerateVideos p # cycles k" by simp
  then show ?thesis ..
qed


text \<open>What \<open>first_video_uri\<close> reads: the URI of the video of the first generated entry.\<close>

lemma first_video_uri_Some:
  "first_video_uri op = Some u \<longleftrightarrow>
     (\<exists>others. response op =
        Some \<lparr>generatedVideos = Some (\<lparr>video = Some \<lparr>video_uri = Some u\<rparr>\<rparr> # others)\<rparr>)"
proof
  assume a: "first_video_uri op = Some u"
  then obtain r where r: "response op = Some r"
    by (auto simp: first_video_uri_def split: option.splits)
  with a obtain g others where g: "generatedVideos r = Some (g # others)"
    by (auto simp: first_video_uri_def split: option.splits list.splits)
  with a r obtain v where v: "video g = Some v"
    by (auto simp: first_video_uri_def split: option.splits)
  with a r g have u: "video_uri v = Some u"
    by (simp add: first_video_uri_def)
  have "v = \<lparr>video_uri = Some u\<rparr>" using u by (cases v) simp
  moreover have "g = \<lparr>video = Some v\<rparr>" using v by (cases g) simp
  moreover have "r = \<lparr>generatedVideos = Some (g # others)\<rparr>" using g by (cases r) simp
  ultimately show "\<exists>others. response op =
        Some \<lparr>generatedVideos = Some (\<lparr>video = Some \<lparr>video_uri = Some u\<rparr>\<rparr> # others)\<rparr>"
    using r by auto
next
  assume "\<exists>others. response op =
        Some \<lparr>generatedVideos = Some (\<lparr>video = Some \<lparr>video_uri = Some u\<rparr>\<rparr> # others)\<rparr>"
  then show "first_video_uri op = Some u"
    by (auto simp: first_video_uri_def)
qed

text \<open>One more step at the end of \<open>n\<close> steps.\<close>

lemma poll_steps_Suc_end:
  "poll_steps status (Suc n) c =
     (case poll_steps status n c of Inl r \<Rightarrow> Inl r | Inr c' \<Rightarrow> poll_step status c')"
proof (induction n arbitrary: c)
  case 0
  show ?case by (simp split: sum.splits)
next
  case (Suc n)
  show ?case
  proof (cases "poll_step status c")
    case (Inl r)
    then show ?thesis by simp
  next
    case (Inr c')
    with Suc.IH [of c'] show ?thesis by simp
  qed
qed

text \<open>
  While no handle is done and no status request rejects, \<open>n\<close> steps are \<open>n\<close> cycles and the
  loop holds the \<open>n\<close>-th handle.
\<close>

lemma poll_steps_handles:
  "(\<forall>k<n. \<not> op_done (handle_at op0 status k) \<and> \<not> isl (status k)) \<Longrightarrow>
   poll_steps status n \<lparr>operation = op0, polls = 0, events = [GenerateVideos p]\<rparr> =
     Inr \<lparr>operation = handle_at op0 status n, polls = n, events = GenerateVideos p # cycles n\<rparr>"
proof (induction n)
  case 0
  show ?case by (simp add: cycles_def)
next
  case (Suc n)
  from Suc.prems have nd: "\<not> op_done (handle_at op0 status n)" and "\<not> isl (status n)"
    by simp_all
  then obtain op' where op': "status n = Inr op'" by (cases "status n") simp_all
  from Suc.prems have "\<forall>k<n. \<not> op_done (handle_at op0 status k) \<and> \<not> isl (status k)" by simp
  from Suc.IH [OF this] nd op' show ?case
    by (simp only: poll_steps_Suc_end) (simp add: poll_step_def cycles_Suc [symmetric])
qed

text \<open>The loop ends at the first handle that is done or status request that rejects.\<close>

lemma poll_loop_ends:
  assumes "op_done (handle_at op0 status n) \<or> isl (status n)"
  shows "poll_loop status \<lparr>operation = op0, polls = 0, events = [GenerateVideos p]\<rparr> \<noteq> None"
proof -
  let ?stop = "\<lambda>n. op_done (handle_at op0 status n) \<or> isl (status n)"
  from assms obtain m where m: "?stop m" and least: "\<forall>k<m. \<not> ?stop k"
    using exists_least_iff [of ?stop] by blast
  from least have "\<forall>k<m. \<not> op_done (handle_at op0 status k) \<and> \<not> isl (status k)" by simp
  from poll_steps_handles [OF this, of p]
  have run: "poll_steps status m \<lparr>operation = op0, polls = 0, events = [GenerateVideos p]\<rparr> =
     Inr \<lparr>operation = handle_at op0 status m, polls = m, events = GenerateVideos p # cycles m\<rparr>" .
  from m have "\<exists>r. poll_step status
      \<lparr>operation = handle_at op0 status m, polls = m, events = GenerateVideos p # cycles m\<rparr> = Inl r"
    by (cases "status m") (auto simp: poll_step_def)
  then obtain r where "poll_steps status (Suc m)
      \<lparr>operation = op0, polls = 0, events = [GenerateVideos p]\<rparr> = Inl r"
    using run by (auto simp only: poll_steps_Suc_end sum.case)
  then show ?thesis using poll_steps_loop by fastforce
qed

lemma poll_loop_never_ends:
  assumes "\<forall>n. \<not> op_done (handle_at op0 status n) \<and> \<not> isl (status n)"
  shows "poll_loop status \<lparr>operation = op0, polls = 0, events = [GenerateVideos p]\<rparr> = None"
proof (rule ccontr)
  assume "poll_loop status \<lparr>operation = op0, polls = 0, events = [GenerateVideos p]\<rparr> \<noteq> None"
  then obtain r where
    "poll_loop status \<lparr>operation = op0, polls = 0, events = [GenerateVideos p]\<rparr> = Some r"
    by blast
  then obtain n where
    "poll_steps status n \<lparr>operation = op0, polls = 0, events = [GenerateVideos p]\<rparr> = Inl r"
    using poll_loop_steps by blast
  moreover have "\<forall>k<n. \<not> op_done (handle_at op0 status k) \<and> \<not> isl (status k)"
    using assms by simp
  ultimately show False using poll_steps_handles [of n op0 status p] by simp
qed

lemma generateExplanationVideo_None_iff:
  "generateExplanationVideo API_KEY \<lparr>generateVideos = Inr op0, getVideosOperation = status\<rparr> p = None
     \<longleftrightarrow> poll_loop status \<lparr>operation = op0, polls = 0, events = [GenerateVideos p]\<rparr> = None"
  by (auto simp: generateExplanationVideo_def split: option.splits sum.splits)

section \<open>Video generation: polling, termination and the missing key\<close>

text \<open>
  Claim C3. Let \<open>ops 0\<close> be the handle the submission returns and \<open>ops (Suc k)\<close> the handle
  the \<open>k\<close>-th status request returns. If \<open>done\<close> is false at the first \<open>n\<close> reads and true at
  the next, \<open>generateExplanationVideo\<close> runs exactly \<open>n\<close> cycles, each a wait of 10000 ms
  followed by a status request. Then, when the response of the completed operation has a list
  of generated videos whose first entry has a video with a non-empty URI, it returns that
  URI followed by \<open>&key=\<close> and the key of the environment (nothing when there is none);
  in every other case it fails with the error \<open>Video generation failed or returned no URI\<close>.
\<close>

theorem generateExplanationVideo_polls_until_done:
  assumes "\<forall>k<n. \<not> op_done (ops k)" and "op_done (ops n)"
  shows "(\<forall>u others.
            response (ops n) =
              Some \<lparr>generatedVideos = Some (\<lparr>video = Some \<lparr>video_uri = Some u\<rparr>\<rparr> # others)\<rparr>
            \<and> u \<noteq> [] \<longrightarrow>
            generateExplanationVideo API_KEY
              \<lparr>generateVideos = Inr (ops 0), getVideosOperation = (\<lambda>k. Inr (ops (Suc k)))\<rparr> p =
            Some (Inr (u @ ''&key='' @ (case API_KEY of None \<Rightarrow> [] | Some key \<Rightarrow> key)),
                  GenerateVideos p # concat (replicate n [Sleep 10000, GetVideosOperation])))
       \<and> ((\<nexists>u others.
              response (ops n) =
                Some \<lparr>generatedVideos = Some (\<lparr>video = Some \<lparr>video_uri = Some u\<rparr>\<rparr> # others)\<rparr>
              \<and> u \<noteq> []) \<longrightarrow>
            generateExplanationVideo API_KEY
              \<lparr>generateVideos = Inr (ops 0), getVideosOperation = (\<lambda>k. Inr (ops (Suc k)))\<rparr> p =
            Some (Inl (Error ''Video generation failed or returned no URI''),
                  GenerateVideos p # concat (replicate n [Sleep 10000, GetVideosOperation])))"
proof (intro conjI allI impI)
  fix u others
  assume "response (ops n) =
              Some \<lparr>generatedVideos = Some (\<lparr>video = Some \<lparr>video_uri = Some u\<rparr>\<rparr> # others)\<rparr>
            \<and> u \<noteq> []"
  then have "first_video_uri (ops n) = Some u" and "u \<noteq> []"
    using first_video_uri_Some [of "ops n" u] by auto
  with generateExplanationVideo_done_at [OF assms, of API_KEY p]
  show "generateExplanationVideo API_KEY
              \<lparr>generateVideos = Inr (ops 0), getVideosOperation = (\<lambda>k. Inr (ops (Suc k)))\<rparr> p =
            Some (Inr (u @ ''&key='' @ (case API_KEY of None \<Rightarrow> [] | Some key \<Rightarrow> key)),
                  GenerateVideos p # concat (replicate n [Sleep 10000, GetVideosOperation]))"
    by (simp add: cycles_def truthy_def or_else_def apiKey_of_def split: option.splits)
next
  assume none: "\<nexists>u others.
              response (ops n) =
                Some \<lparr>generatedVideos = Some (\<lparr>video = Some \<lparr>video_uri = Some u\<rparr>\<rparr> # others)\<rparr>
              \<and> u \<noteq> []"
  have "\<not> truthy (first_video_uri (ops n))"
  proof
    assume "truthy (first_video_uri (ops n))"
    then obtain u where "first_video_uri (ops n) = Some u" and "u \<noteq> []"
      by (auto simp: truthy_def split: option.splits)
    with none show False using first_video_uri_Some [of "ops n" u] by auto
  qed
  with generateExplanationVideo_done_at [OF assms, of API_KEY p]
  show "generateExplanationVideo API_KEY
              \<lparr>generateVideos = Inr (ops 0), getVideosOperation = (\<lambda>k. Inr (ops (Suc k)))\<rparr> p =
            Some (Inl (Error ''Video generation failed or returned no URI''),
                  GenerateVideos p # concat (replicate n [Sleep 10000, GetVideosOperation]))"
    by (simp add: cycles_def)
qed

theorem generateExplanationVideo_polls_until_done_witness:
  "generateExplanationVideo (Some ''KEY'')
     \<lparr>generateVideos = Inr \<lparr>op_done = False, response = None\<rparr>,
      getVideosOperation = (\<lambda>k. Inr \<lparr>op_done = (2 \<le> Suc k),
        response = Some \<lparr>generatedVideos = Some
          [\<lparr>video = Some \<lparr>video_uri = Some ''https://v/1?alt=media''\<rparr>\<rparr>,
           \<lparr>video = Some \<lparr>video_uri = Some ''https://v/2?alt=media''\<rparr>\<rparr>]\<rparr>\<rparr>)\<rparr>
     ''a ball on a plane''
   = Some (Inr ''https://v/1?alt=media&key=KEY'',
           [GenerateVideos ''a ball on a plane'',
            Sleep 10000, GetVideosOperation, Sleep 10000, GetVideosOperation])
   \<and> generateExplanationVideo (Some ''KEY'')
     \<lparr>generateVideos = Inr \<lparr>op_done = False, response = None\<rparr>,
      getVideosOperation = (\<lambda>k. Inr \<lparr>op_done = (1 \<le> Suc k),
        response = Some \<lparr>generatedVideos = Some []\<rparr>\<rparr>)\<rparr>
     ''a ball on a plane''
   = Some (Inl (Error ''Video generation failed or returned no URI''),
           [GenerateVideos ''a ball on a plane'', Sleep 10000, GetVideosOperation])"
proof -
  let ?videos = "[\<lparr>video = Some \<lparr>video_uri = Some ''https://v/1?alt=media''\<rparr>\<rparr>,
           \<lparr>video = Some \<lparr>video_uri = Some ''https://v/2?alt=media''\<rparr>\<rparr>]"
  let ?ops = "\<lambda>k::nat. if k = 0 then \<lparr>op_done = False, response = None\<rparr>
        else \<lparr>op_done = (2 \<le> k), response = Some \<lparr>generatedVideos = Some ?videos\<rparr>\<rparr>"
  let ?none = "\<lambda>k::nat. if k = 0 then \<lparr>op_done = False, response = None\<rparr>
        else \<lparr>op_done = (1 \<le> k), response = Some \<lparr>generatedVideos = Some []\<rparr>\<rparr>"
  have a: "\<forall>k<2::nat. \<not> op_done (?ops k)" by simp
  have b: "op_done (?ops 2)" by simp
  have c: "response (?ops 2) =
             Some \<lparr>generatedVideos = Some (\<lparr>video = Some \<lparr>video_uri = Some ''https://v/1?alt=media''\<rparr>\<rparr>
               # [\<lparr>video = Some \<lparr>video_uri = Some ''https://v/2?alt=media''\<rparr>\<rparr>])\<rparr>
           \<and> ''https://v/1?alt=media'' \<noteq> []" by simp
  from generateExplanationVideo_polls_until_done
         [of 2 ?ops "Some ''KEY''" "''a ball on a plane''", OF a b, THEN conjunct1,
          rule_format, OF c]
  have 1: "generateExplanationVideo (Some ''KEY'')
     \<lparr>generateVideos = Inr \<lparr>op_done = False, response = None\<rparr>,
      getVideosOperation = (\<lambda>k. Inr \<lparr>op_done = (2 \<le> Suc k),
        response = Some \<lparr>generatedVideos = Some ?videos\<rparr>\<rparr>)\<rparr>
     ''a ball on a plane''
   = Some (Inr ''https://v/1?alt=media&key=KEY'',
           [GenerateVideos ''a ball on a plane'',
            Sleep 10000, GetVideosOperation, Sleep 10000, GetVideosOperation])"
    by (simp add: numeral_2_eq_2)
  have a': "\<forall>k<1::nat. \<not> op_done (?none k)" by simp
  have b': "op_done (?none 1)" by simp
  have c': "\<nexists>u others. response (?none 1) =
                Some \<lparr>generatedVideos = Some (\<lparr>video = Some \<lparr>video_uri = Some u\<rparr>\<rparr> # others)\<rparr>
              \<and> u \<noteq> []" by simp
  from generateExplanationVideo_polls_until_done
         [of 1 ?none "Some ''KEY''" "''a ball on a plane''", OF a' b', THEN conjunct2,
          rule_format, OF c']
  have 2: "generateExplanationVideo (Some ''KEY'')
     \<lparr>generateVideos = Inr \<lparr>op_done = False, response = None\<rparr>,
      getVideosOperation = (\<lambda>k. Inr \<lparr>op_done = (1 \<le> Suc k),
        response = Some \<lparr>generatedVideos = Some []\<rparr>\<rparr>)\<rparr>
     ''a ball on a plane''
   = Some (Inl (Error ''Video generation failed or returned no URI''),
           [GenerateVideos ''a ball on a plane'', Sleep 10000, GetVideosOperation])"
    by simp
  from 1 2 show ?thesis by simp
qed

text \<open>
  Claim C8, as the code has it. Let \<open>handle_at op0 status n\<close> be the handle the loop holds
  at its \<open>n\<close>-th read of \<open>done\<close>: the one the submission returned, then the one each status
  request returned. The loop of \<open>generateExplanationVideo\<close> ends if and only if some read of
  \<open>done\<close> is true or some status request rejects (the rejection leaves the loop with \<open>done\<close>
  never true; the claim says: only if some response reports \<open>done\<close>). There is no bound on the
  attempts: when every status request resolves and \<open>done\<close> never becomes true the call never
  returns, and after any number \<open>n\<close> of steps the loop is still running, having waited \<open>n\<close>
  times 10000 ms and issued \<open>n\<close> status requests.
\<close>

theorem polling_ends_iff_done_or_rejected:
  "(generateExplanationVideo API_KEY
       \<lparr>generateVideos = Inr op0, getVideosOperation = status\<rparr> p \<noteq> None
     \<longleftrightarrow> (\<exists>n. op_done (handle_at op0 status n) \<or> isl (status n)))
   \<and> ((\<forall>n. \<not> op_done (handle_at op0 status n) \<and> \<not> isl (status n)) \<longrightarrow>
        generateExplanationVideo API_KEY
          \<lparr>generateVideos = Inr op0, getVideosOperation = status\<rparr> p = None
        \<and> (\<forall>n. poll_steps status n
                  \<lparr>operation = op0, polls = 0, events = [GenerateVideos p]\<rparr> =
                Inr \<lparr>operation = handle_at op0 status n, polls = n,
                     events = GenerateVideos p #
                       concat (replicate n [Sleep 10000, GetVideosOperation])\<rparr>))"
proof -
  let ?run = "generateExplanationVideo API_KEY
       \<lparr>generateVideos = Inr op0, getVideosOperation = status\<rparr> p"
  let ?stop = "\<lambda>n. op_done (handle_at op0 status n) \<or> isl (status n)"
  have never: "?run = None" if "\<forall>n. \<not> op_done (handle_at op0 status n) \<and> \<not> isl (status n)"
    using poll_loop_never_ends [OF that, of p] by (simp add: generateExplanationVideo_None_iff)
  have "?run \<noteq> None \<longleftrightarrow> (\<exists>n. ?stop n)"
  proof
    assume returns: "?run \<noteq> None"
    show "\<exists>n. ?stop n"
    proof (rule ccontr)
      assume "\<not> (\<exists>n. ?stop n)"
      then have "\<forall>n. \<not> op_done (handle_at op0 status n) \<and> \<not> isl (status n)" by simp
      from never [OF this] returns show False by simp
    qed
  next
    assume "\<exists>n. ?stop n"
    then obtain n where "?stop n" ..
    from poll_loop_ends [OF this, of p] show "?run \<noteq> None"
      by (simp add: generateExplanationVideo_None_iff)
  qed
  moreover have "poll_steps status n
                  \<lparr>operation = op0, polls = 0, events = [GenerateVideos p]\<rparr> =
                Inr \<lparr>operation = handle_at op0 status n, polls = n,
                     events = GenerateVideos p #
                       concat (replicate n [Sleep 10000, GetVideosOperation])\<rparr>"
    if "\<forall>n. \<not> op_done (handle_at op0 status n) \<and> \<not> isl (status n)" for n
    using that poll_steps_handles [of n op0 status p] by (simp add: cycles_def)
  ultimately show ?thesis using never by simp
qed

theorem polling_ends_iff_done_or_rejected_witness:
  "generateExplanationVideo (Some ''KEY'')
        \<lparr>generateVideos = Inr \<lparr>op_done = False, response = None\<rparr>,
         getVideosOperation = (\<lambda>k. Inr \<lparr>op_done = False, response = None\<rparr>)\<rparr> ''p'' = None
   \<and> poll_steps (\<lambda>k. Inr \<lparr>op_done = False, response = None\<rparr>) 3
        \<lparr>operation = \<lparr>op_done = False, response = None\<rparr>, polls = 0,
         events = [GenerateVideos ''p'']\<rparr> =
      Inr \<lparr>operation = \<lparr>op_done = False, response = None\<rparr>, polls = 3,
           events = [GenerateVideos ''p'', Sleep 10000, GetVideosOperation,
                     Sleep 10000, GetVideosOperation, Sleep 10000, GetVideosOperation]\<rparr>
   \<and> generateExplanationVideo (Some ''KEY'')
        \<lparr>generateVideos = Inr \<lparr>op_done = False, response = None\<rparr>,
         getVideosOperation = (\<lambda>k. Inr \<lparr>op_done = (3 \<le> k), response = None\<rparr>)\<rparr> ''p'' \<noteq> None"
proof -
  let ?pending = "\<lparr>op_done = False, response = None\<rparr>"
  let ?status = "\<lambda>k::nat. Inr ?pending :: js_error + operation"
  let ?later = "\<lambda>k::nat. Inr \<lparr>op_done = (3 \<le> k), response = None\<rparr> :: js_error + operation"
  have h: "handle_at ?pending ?status n = ?pending" for n
    by (induction n) simp_all
  then have a: "\<forall>n. \<not> op_done (handle_at ?pending ?status n) \<and> \<not> isl (?status n)" by simp
  note main = polling_ends_iff_done_or_rejected [of "Some ''KEY''" ?pending ?status "''p''"]
  from main a
  have 1: "generateExplanationVideo (Some ''KEY'')
        \<lparr>generateVideos = Inr ?pending, getVideosOperation = ?status\<rparr> ''p'' = None"
    and all: "\<forall>n. poll_steps ?status n
                  \<lparr>operation = ?pending, polls = 0, events = [GenerateVideos ''p'']\<rparr> =
                Inr \<lparr>operation = handle_at ?pending ?status n, polls = n,
                     events = GenerateVideos ''p'' #
                       concat (replicate n [Sleep 10000, GetVideosOperation])\<rparr>"
    by blast+
  from all [rule_format, of 3] have 2: "poll_steps ?status 3
        \<lparr>operation = ?pending, polls = 0, events = [GenerateVideos ''p'']\<rparr> =
      Inr \<lparr>operation = ?pending, polls = 3,
           events = [GenerateVideos ''p'', Sleep 10000, GetVideosOperation,
                     Sleep 10000, GetVideosOperation, Sleep 10000, GetVideosOperation]\<rparr>"
    by (simp add: h numeral_3_eq_3)
  have "op_done (handle_at ?pending ?later 4) \<or> isl (?later 4)"
    by (simp add: numeral_eq_Suc)
  then have "\<exists>n. op_done (handle_at ?pending ?later n) \<or> isl (?later n)" ..
  with polling_ends_iff_done_or_rejected [of "Some ''KEY''" ?pending ?later "''p''"]
  have 3: "generateExplanationVideo (Some ''KEY'')
        \<lparr>generateVideos = Inr ?pending, getVideosOperation = ?later\<rparr> ''p'' \<noteq> None"
    by blast
  from 1 2 3 show ?thesis by simp
qed

text \<open>
  The claim as it is written fails: when the first status request rejects, the call ends,
  throwing the error, and no handle has reported \<open>done\<close>.
\<close>

theorem polling_rejected_status_counterexample:
  "generateExplanationVideo (Some ''KEY'')
     \<lparr>generateVideos = Inr \<lparr>op_done = False, response = None\<rparr>,
      getVideosOperation = (\<lambda>k. Inl (Error ''503 Service Unavailable''))\<rparr> ''p''
     = Some (Inl (Error ''503 Service Unavailable''),
             [GenerateVideos ''p'', Sleep 10000, GetVideosOperation])
   \<and> \<not> op_done \<lparr>op_done = False, response = None\<rparr>"
  by (subst generateExplanationVideo_def, subst poll_loop.simps)
     (simp add: poll_step_def)

text \<open>
  Claim C10. With no key in the environment, \<open>solveProblem\<close>, \<open>performSearch\<close> and
  \<open>translateText\<close> fail with \<open>API Key not found\<close> before any remote call.
  \<open>generateExplanationVideo\<close> has no such check: it submits the job (every trace it returns
  starts with the submission, and a rejected submission is what it throws), and when the job
  completes with a video URI it returns the URI followed by \<open>&key=\<close> and nothing.
\<close>

theorem missing_key_checked_except_for_video:
  assumes "apiKey_of API_KEY = []"
  shows "solveProblem API_KEY imagePart generateContent parsed =
           (Inl (Error ''API Key not found''), [])
       \<and> performSearch API_KEY search verify = (Inl (Error ''API Key not found''), [])
       \<and> translateText API_KEY translate source_text targetLanguage =
           (Inl (Error ''API Key not found''), [])
       \<and> (\<forall>e. generateVideos job = Inl e \<longrightarrow>
             generateExplanationVideo API_KEY job p = Some (Inl e, [GenerateVideos p]))
       \<and> (\<forall>r ev. generateExplanationVideo API_KEY job p = Some (r, ev) \<longrightarrow>
             (\<exists>k. ev = GenerateVideos p # cycles k))
       \<and> (\<forall>ops n vuri.
             (\<forall>k<n. \<not> op_done (ops k)) \<and> op_done (ops n) \<and>
             first_video_uri (ops n) = Some vuri \<and> vuri \<noteq> [] \<longrightarrow>
             generateExplanationVideo API_KEY
               \<lparr>generateVideos = Inr (ops 0), getVideosOperation = (\<lambda>k. Inr (ops (Suc k)))\<rparr> p =
             Some (Inr (vuri @ ''&key=''), GenerateVideos p # cycles n))"
proof (intro conjI allI impI)
  show "solveProblem API_KEY imagePart generateContent parsed =
           (Inl (Error ''API Key not found''), [])"
    using assms by (simp add: solveProblem_def)
  show "performSearch API_KEY search verify = (Inl (Error ''API Key not found''), [])"
    using assms by (simp add: performSearch_def)
  show "translateText API_KEY translate source_text targetLanguage =
           (Inl (Error ''API Key not found''), [])"
    using assms by (simp add: translateText_def)
next
  fix e assume "generateVideos job = Inl e"
  then show "generateExplanationVideo API_KEY job p = Some (Inl e, [GenerateVideos p])"
    by (simp add: generateExplanationVideo_def)
next
  fix r ev assume "generateExplanationVideo API_KEY job p = Some (r, ev)"
  then show "\<exists>k. ev = GenerateVideos p # cycles k"
    by (rule generateExplanationVideo_trace)
next
  fix ops :: "nat \<Rightarrow> operation" and n vuri
  assume h: "(\<forall>k<n. \<not> op_done (ops k)) \<and> op_done (ops n) \<and>
             first_video_uri (ops n) = Some vuri \<and> vuri \<noteq> []"
  then have "\<forall>k<n. \<not> op_done (ops k)" and "op_done (ops n)" by simp_all
  from generateExplanationVideo_done_at [OF this, of API_KEY p] h assms
  show "generateExplanationVideo API_KEY
               \<lparr>generateVideos = Inr (ops 0), getVideosOperation = (\<lambda>k. Inr (ops (Suc k)))\<rparr> p =
             Some (Inr (vuri @ ''&key=''), GenerateVideos p # cycles n)"
    by (simp add: truthy_def or_else_def)
qed

theorem missing_key_checked_except_for_video_witness:
  "apiKey_of None = []
   \<and> fst (solveProblem None (Inr ()) (Inr \<lparr>resp_text = Some ''{}'', groundingChunks = None\<rparr>)
            (Inr (JObject []))) = Inl (Error ''API Key not found'')
   \<and> generateExplanationVideo None
        \<lparr>generateVideos = Inr \<lparr>op_done = True,
           response = Some \<lparr>generatedVideos = Some [\<lparr>video = Some \<lparr>video_uri = Some ''https://v/1?alt=media''\<rparr>\<rparr>]\<rparr>\<rparr>,
         getVideosOperation = (\<lambda>k. Inr \<lparr>op_done = True,
           response = Some \<lparr>generatedVideos = Some [\<lparr>video = Some \<lparr>video_uri = Some ''https://v/1?alt=media''\<rparr>\<rparr>]\<rparr>\<rparr>)\<rparr>
        ''p''
      = Some (Inr ''https://v/1?alt=media&key='', [GenerateVideos ''p''])"
proof -
  let ?ops = "\<lambda>k::nat. \<lparr>op_done = True,
           response = Some \<lparr>generatedVideos = Some [\<lparr>video = Some \<lparr>video_uri = Some ''https://v/1?alt=media''\<rparr>\<rparr>]\<rparr>\<rparr>"
  have key: "apiKey_of None = []" by (simp add: apiKey_of_def or_else_def)
  note main = missing_key_checked_except_for_video [OF key]
  have 1: "fst (solveProblem None (Inr ()) (Inr \<lparr>resp_text = Some ''{}'', groundingChunks = None\<rparr>)
            (Inr (JObject []))) = Inl (Error ''API Key not found'')"
    using main [where imagePart = "Inr ()"] by simp
  from main [where imagePart = "Inr ()" and p = "''p''"]
  have all: "\<forall>ops n vuri.
             (\<forall>k<n. \<not> op_done (ops k)) \<and> op_done (ops n) \<and>
             first_video_uri (ops n) = Some vuri \<and> vuri \<noteq> [] \<longrightarrow>
             generateExplanationVideo None
               \<lparr>generateVideos = Inr (ops 0), getVideosOperation = (\<lambda>k. Inr (ops (Suc k)))\<rparr> ''p'' =
             Some (Inr (vuri @ ''&key=''), GenerateVideos ''p'' # cycles n)"
    by simp
  have pre: "(\<forall>k<0. \<not> op_done (?ops k)) \<and> op_done (?ops 0) \<and>
        first_video_uri (?ops 0) = Some ''https://v/1?alt=media'' \<and> ''https://v/1?alt=media'' \<noteq> []"
    by (simp add: first_video_uri_def)
  from all [rule_format, of 0 ?ops "''https://v/1?alt=media''", OF pre]
  have 2: "generateExplanationVideo None
        \<lparr>generateVideos = Inr (?ops 0), getVideosOperation = (\<lambda>k. Inr (?ops (Suc k)))\<rparr> ''p''
      = Some (Inr (''https://v/1?alt=media'' @ ''&key=''), GenerateVideos ''p'' # cycles 0)" .
  from key 1 2 show ?thesis by (simp add: cycles_def)
qed


section \<open>The query history\<close>

lemma take_filter_take:
  "distinct xs \<Longrightarrow>
   take n (filter (\<lambda>q. q \<noteq> c) (take (Suc n) xs)) = take n (filter (\<lambda>q. q \<noteq> c) xs)"
proof (induction xs arbitrary: n)
  case Nil
  show ?case by simp
next
  case (Cons x xs)
  show ?case
  proof (cases n)
    case 0
    then show ?thesis by simp
  next
    case (Suc m)
    show ?thesis
    proof (cases "x = c")
      case True
      with Cons.prems have "c \<notin> set xs" by simp
      then have "filter (\<lambda>q. q \<noteq> c) xs = xs"
        and "filter (\<lambda>q. q \<noteq> c) (take (Suc m) xs) = take (Suc m) xs"
        by (auto simp: filter_id_conv dest: in_set_takeD)
      with True Suc show ?thesis by simp
    next
      case False
      from Cons.prems have "distinct xs" by simp
      from Cons.IH [OF this, of m] False Suc show ?thesis by simp
    qed
  qed
qed

lemma addToHistory_searchHistory:
  "searchHistory (addToHistory q s) =
     (if trim q = [] then searchHistory s
      else take 5 (trim q # filter (\<lambda>x. x \<noteq> trim q) (searchHistory s)))"
  by (simp add: addToHistory_def Let_def)

lemma rev_remdups_snoc:
  "rev (remdups (xs @ [c])) = c # filter (\<lambda>x. x \<noteq> c) (rev (remdups xs))"
proof -
  have "remdups (xs @ [c]) = remdups (filter (\<lambda>x. x \<noteq> c) xs) @ [c]"
    by (induction xs) auto
  then show ?thesis by (simp add: remdups_filter rev_filter)
qed

lemma fold_addToHistory_closed:
  assumes "distinct (searchHistory s)" and "length (searchHistory s) \<le> 5"
  shows "searchHistory (fold addToHistory qs s) =
           take 5 (rev (remdups (rev (searchHistory s) @ filter (\<lambda>q. q \<noteq> []) (map trim qs))))"
proof (induction qs rule: rev_induct)
  case Nil
  from assms show ?case by (simp add: distinct_remdups_id)
next
  case (snoc q qs)
  let ?X = "rev (searchHistory s) @ filter (\<lambda>q. q \<noteq> []) (map trim qs)"
  show ?case
  proof (cases "trim q = []")
    case True
    with snoc show ?thesis by (simp add: addToHistory_searchHistory)
  next
    case False
    have "searchHistory (fold addToHistory (qs @ [q]) s) =
            take 5 (trim q # filter (\<lambda>x. x \<noteq> trim q) (take 5 (rev (remdups ?X))))"
      using False snoc by (simp add: addToHistory_searchHistory)
    also have "\<dots> = trim q # take 4 (filter (\<lambda>x. x \<noteq> trim q) (take (Suc 4) (rev (remdups ?X))))"
      by (simp add: numeral_eq_Suc)
    also have "\<dots> = trim q # take 4 (filter (\<lambda>x. x \<noteq> trim q) (rev (remdups ?X)))"
      by (subst take_filter_take) simp_all
    also have "\<dots> = take 5 (rev (remdups (?X @ [trim q])))"
      by (simp add: rev_remdups_snoc numeral_eq_Suc del: append_assoc)
    finally show ?thesis using False by simp
  qed
qed

text \<open>
  Claim C7. Starting from a history without duplicates and of at most 5 entries, after any
  sequence of added queries the history has no duplicates and at most 5 entries, and it is
  most-recent-first: it is the first 5 of the distinct trimmed non-empty queries, the latest
  first (\<open>rev (remdups xs)\<close> lists the distinct elements of \<open>xs\<close> from the last added back).
  Adding a new query to a history of 5 entries puts it first and drops only the last, the
  least recently added.
\<close>

theorem addToHistory_bounded_recent_first:
  assumes "distinct (searchHistory s)" and "length (searchHistory s) \<le> 5"
  shows "distinct (searchHistory (fold addToHistory qs s))
       \<and> length (searchHistory (fold addToHistory qs s)) \<le> 5
       \<and> searchHistory (fold addToHistory qs s) =
           take 5 (rev (remdups (rev (searchHistory s) @ filter (\<lambda>q. q \<noteq> []) (map trim qs))))
       \<and> (length (searchHistory s) = 5 \<and> trim q \<noteq> [] \<and> trim q \<notin> set (searchHistory s) \<longrightarrow>
            searchHistory (addToHistory q s) = trim q # butlast (searchHistory s))"
proof -
  note closed = fold_addToHistory_closed [OF assms, of qs]
  have "searchHistory (addToHistory q s) = trim q # butlast (searchHistory s)"
    if "length (searchHistory s) = 5" and "trim q \<noteq> []" and "trim q \<notin> set (searchHistory s)"
  proof -
    from that(3) have "filter (\<lambda>x. x \<noteq> trim q) (searchHistory s) = searchHistory s"
      by (auto simp: filter_id_conv)
    with that(1,2) show ?thesis
      by (simp add: addToHistory_searchHistory butlast_conv_take numeral_eq_Suc)
  qed
  with closed show ?thesis by simp
qed

theorem addToHistory_bounded_recent_first_witness:
  "searchHistory (addToHistory '' f ''
     \<lparr>solution = None, videoStatus = Idle, videoUri = None, errorMsg = [], apiKeySelected = True,
      searchHistory = [''e'', ''d'', ''c'', ''b'', ''a''],
      stored_history = Some [''e'', ''d'', ''c'', ''b'', ''a'']\<rparr>)
     = [''f'', ''e'', ''d'', ''c'', ''b'']
   \<and> searchHistory (fold addToHistory [''a'', ''b'', '' a'', '' '', ''c'', ''d'', ''e'', ''f'', ''b'']
     \<lparr>solution = None, videoStatus = Idle, videoUri = None, errorMsg = [], apiKeySelected = True,
      searchHistory = [], stored_history = None\<rparr>)
     = [''b'', ''f'', ''e'', ''d'', ''c'']"
proof -
  let ?full = "\<lparr>solution = None, videoStatus = Idle, videoUri = None, errorMsg = [], apiKeySelected = True,
      searchHistory = [''e'', ''d'', ''c'', ''b'', ''a''],
      stored_history = Some [''e'', ''d'', ''c'', ''b'', ''a'']\<rparr>"
  let ?empty = "\<lparr>solution = None, videoStatus = Idle, videoUri = None, errorMsg = [], apiKeySelected = True,
      searchHistory = [], stored_history = None\<rparr>"
  have t: "trim '' f '' = ''f''" "trim ''a'' = ''a''" "trim ''b'' = ''b''" "trim '' a'' = ''a''"
    "trim '' '' = []" "trim ''c'' = ''c''" "trim ''d'' = ''d''" "trim ''e'' = ''e''" "trim ''f'' = ''f''"
    by (simp_all add: trim_def is_space_def)
  have d: "distinct (searchHistory ?full)" and l: "length (searchHistory ?full) \<le> 5" by simp_all
  have d0: "distinct (searchHistory ?empty)" and l0: "length (searchHistory ?empty) \<le> 5" by simp_all
  from addToHistory_bounded_recent_first [OF d l, of "[]" "'' f ''"]
  have 1: "searchHistory (addToHistory '' f '' ?full) = [''f'', ''e'', ''d'', ''c'', ''b'']"
    by (simp add: t)
  from addToHistory_bounded_recent_first [OF d0 l0,
      of "[''a'', ''b'', '' a'', '' '', ''c'', ''d'', ''e'', ''f'', ''b'']" "[]"]
  have 2: "searchHistory (fold addToHistory [''a'', ''b'', '' a'', '' '', ''c'', ''d'', ''e'', ''f'', ''b''] ?empty)
     = [''b'', ''f'', ''e'', ''d'', ''c'']"
    by (simp add: t)
  from 1 2 show ?thesis by simp
qed


section \<open>The retry of the video generation\<close>

lemma generateExplanationVideo_rejected:
  "generateVideos job = Inl e \<Longrightarrow>
   generateExplanationVideo API_KEY job p = Some (Inl e, [GenerateVideos p])"
  by (simp add: generateExplanationVideo_def)

text \<open>
  Claim C4, as the code has it. When the first submission fails with an error of the
  entity-not-found class and the retry returns, \<open>handleGenerateVideo\<close> has written the
  credential flag to false, has opened the credential dialog once more if the host has one
  (\<open>has_openSelectKey\<close>; without it no dialog is opened and the flag stays false), and has
  submitted the job once more, and no more: the trace after the failed submission is the
  write of the flag, the dialog if there is one, and the trace \<open>tr2\<close> of the one retry, which
  holds one submission. The video state is completed with the URI when the retry succeeds
  and error when it fails.
\<close>

theorem handleGenerateVideo_retries_once:
  assumes "solution s0 = Some sol" and "visualPrompt sol \<noteq> []"
    and "generateVideos job1 = Inl e" and "isEntityNotFound e"
    and "generateExplanationVideo API_KEY2 job2 (visualPrompt sol) = Some (r2, tr2)"
  shows "\<exists>s' k.
           handleGenerateVideo has_openSelectKey API_KEY1 job1 API_KEY2 job2 s0 =
             Some (s',
               (if \<not> apiKeySelected s0 \<and> has_openSelectKey
                then [OpenSelectKey, SetApiKeySelected True] else [])
               @ [GenerateVideos (visualPrompt sol), SetApiKeySelected False]
               @ (if has_openSelectKey then [OpenSelectKey, SetApiKeySelected True] else [])
               @ tr2)
         \<and> tr2 = GenerateVideos (visualPrompt sol) # cycles k
         \<and> apiKeySelected s' = has_openSelectKey
         \<and> (case r2 of
               Inr u \<Rightarrow> videoStatus s' = Completed \<and> videoUri s' = Some u
             | Inl retryError \<Rightarrow> videoStatus s' = Failed \<and> videoUri s' = videoUri s0)"
proof -
  from assms(5) obtain k where k: "tr2 = GenerateVideos (visualPrompt sol) # cycles k"
    using generateExplanationVideo_trace by blast
  have first: "generateExplanationVideo API_KEY1 job1 (visualPrompt sol) =
                 Some (Inl e, [GenerateVideos (visualPrompt sol)])"
    using assms(3) by (rule generateExplanationVideo_rejected)
  show ?thesis
  proof (cases r2)
    case (Inl retryError)
    with assms(1,2,4,5) first k show ?thesis
      by (auto simp: handleGenerateVideo_def handleSelectKey_def Let_def)
  next
    case (Inr u)
    with assms(1,2,4,5) first k show ?thesis
      by (auto simp: handleGenerateVideo_def handleSelectKey_def Let_def)
  qed
qed


lemma entity_not_found_example:
  "isEntityNotFound \<lparr>message = Some ''Requested entity was not found.'', error_message = None,
                     json = ''{}''\<rparr>"
  by (simp add: isEntityNotFound_def or_else_def)

lemma generateExplanationVideo_example:
  "generateExplanationVideo (Some ''K'')
     \<lparr>generateVideos = Inr \<lparr>op_done = True,
        response = Some \<lparr>generatedVideos = Some [\<lparr>video = Some \<lparr>video_uri = Some ''https://v/1?alt=media''\<rparr>\<rparr>]\<rparr>\<rparr>,
      getVideosOperation = (\<lambda>k. Inl (Error ''not asked''))\<rparr> ''a ball''
   = Some (Inr ''https://v/1?alt=media&key=K'', [GenerateVideos ''a ball''])"
  by (subst generateExplanationVideo_def, subst poll_loop.simps)
     (simp add: poll_step_def first_video_uri_def apiKey_of_def or_else_def)

theorem handleGenerateVideo_retries_once_witness:
  "handleGenerateVideo True (Some ''K'')
     \<lparr>generateVideos = Inl \<lparr>message = Some ''Requested entity was not found.'',
                              error_message = None, json = ''{}''\<rparr>,
      getVideosOperation = (\<lambda>k. Inl (Error ''not asked''))\<rparr>
     (Some ''K'')
     \<lparr>generateVideos = Inr \<lparr>op_done = True,
        response = Some \<lparr>generatedVideos = Some [\<lparr>video = Some \<lparr>video_uri = Some ''https://v/1?alt=media''\<rparr>\<rparr>]\<rparr>\<rparr>,
      getVideosOperation = (\<lambda>k. Inl (Error ''not asked''))\<rparr>
     \<lparr>solution = Some \<lparr>solutionMarkdown = ''x'', visualPrompt = ''a ball'', confidence = ''High''\<rparr>,
      videoStatus = Idle, videoUri = None, errorMsg = [], apiKeySelected = True,
      searchHistory = [], stored_history = None\<rparr>
   = Some (\<lparr>solution = Some \<lparr>solutionMarkdown = ''x'', visualPrompt = ''a ball'', confidence = ''High''\<rparr>,
            videoStatus = Completed, videoUri = Some ''https://v/1?alt=media&key=K'',
            errorMsg = [], apiKeySelected = True, searchHistory = [], stored_history = None\<rparr>,
           [GenerateVideos ''a ball'', SetApiKeySelected False, OpenSelectKey,
            SetApiKeySelected True, GenerateVideos ''a ball''])"
proof -
  let ?sol = "\<lparr>solutionMarkdown = ''x'', visualPrompt = ''a ball'', confidence = ''High''\<rparr>"
  let ?init = "\<lparr>solution = Some ?sol,
      videoStatus = Idle, videoUri = None, errorMsg = [], apiKeySelected = True,
      searchHistory = [], stored_history = None\<rparr>"
  let ?e = "\<lparr>message = Some ''Requested entity was not found.'', error_message = None, json = ''{}''\<rparr>"
  let ?job1 = "\<lparr>generateVideos = Inl ?e, getVideosOperation = (\<lambda>k. Inl (Error ''not asked''))\<rparr>"
  let ?job2 = "\<lparr>generateVideos = Inr \<lparr>op_done = True,
        response = Some \<lparr>generatedVideos = Some [\<lparr>video = Some \<lparr>video_uri = Some ''https://v/1?alt=media''\<rparr>\<rparr>]\<rparr>\<rparr>,
      getVideosOperation = (\<lambda>k. Inl (Error ''not asked''))\<rparr>"
  have h1: "solution ?init = Some ?sol" by simp
  have h2: "visualPrompt ?sol \<noteq> []" by simp
  have h3: "generateVideos ?job1 = Inl ?e" by simp
  have h5: "generateExplanationVideo (Some ''K'') ?job2 (visualPrompt ?sol)
              = Some (Inr ''https://v/1?alt=media&key=K'', [GenerateVideos ''a ball''])"
    using generateExplanationVideo_example by simp
  from handleGenerateVideo_retries_once [OF h1 h2 h3 entity_not_found_example h5, of True "Some ''K''"]
  obtain s' where run: "handleGenerateVideo True (Some ''K'') ?job1 (Some ''K'') ?job2 ?init =
      Some (s', [GenerateVideos ''a ball'', SetApiKeySelected False, OpenSelectKey,
            SetApiKeySelected True, GenerateVideos ''a ball''])"
    and "videoStatus s' = Completed" and "videoUri s' = Some ''https://v/1?alt=media&key=K''"
    and "apiKeySelected s' = True"
    by auto
  moreover have "\<exists>t. handleGenerateVideo True (Some ''K'') ?job1 (Some ''K'') ?job2 ?init =
      Some (?init\<lparr>videoStatus := Completed, videoUri := Some ''https://v/1?alt=media&key=K''\<rparr>, t)"
    using h5 entity_not_found_example
    by (simp add: handleGenerateVideo_def handleSelectKey_def generateExplanationVideo_rejected)
  ultimately show ?thesis by auto
qed

text \<open>
  The claim as it is written fails on a host without the credential dialog: the submission is
  retried and no credential interaction is run.
\<close>

theorem handleGenerateVideo_no_dialog_counterexample:
  "handleGenerateVideo False (Some ''K'')
     \<lparr>generateVideos = Inl \<lparr>message = Some ''Requested entity was not found.'',
                              error_message = None, json = ''{}''\<rparr>,
      getVideosOperation = (\<lambda>k. Inl (Error ''not asked''))\<rparr>
     (Some ''K'')
     \<lparr>generateVideos = Inr \<lparr>op_done = True,
        response = Some \<lparr>generatedVideos = Some [\<lparr>video = Some \<lparr>video_uri = Some ''https://v/1?alt=media''\<rparr>\<rparr>]\<rparr>\<rparr>,
      getVideosOperation = (\<lambda>k. Inl (Error ''not asked''))\<rparr>
     \<lparr>solution = Some \<lparr>solutionMarkdown = ''x'', visualPrompt = ''a ball'', confidence = ''High''\<rparr>,
      videoStatus = Idle, videoUri = None, errorMsg = [], apiKeySelected = True,
      searchHistory = [], stored_history = None\<rparr>
   = Some (\<lparr>solution = Some \<lparr>solutionMarkdown = ''x'', visualPrompt = ''a ball'', confidence = ''High''\<rparr>,
            videoStatus = Completed, videoUri = Some ''https://v/1?alt=media&key=K'',
            errorMsg = [], apiKeySelected = False, searchHistory = [], stored_history = None\<rparr>,
           [GenerateVideos ''a ball'', SetApiKeySelected False, GenerateVideos ''a ball''])
   \<and> count_list [GenerateVideos ''a ball'', SetApiKeySelected False, GenerateVideos ''a ball'']
         OpenSelectKey = 0"
  using generateExplanationVideo_example entity_not_found_example
  by (simp add: handleGenerateVideo_def handleSelectKey_def generateExplanationVideo_rejected)


section \<open>The translation caches\<close>



text \<open>A truthy cache entry: the viewer issues no call and leaves the cache as it is.\<close>

lemma SolutionViewer_cache_hit:
  "truthy (translationCache s (language_name newLang)) \<Longrightarrow>
   snd (SolutionViewer_handleLanguageChange API_KEY generateContent data newLang s) = []
   \<and> translationCache (fst (SolutionViewer_handleLanguageChange API_KEY generateContent data newLang s))
       = translationCache s
   \<and> language (fst (SolutionViewer_handleLanguageChange API_KEY generateContent data newLang s))
       = newLang"
  by (simp add: SolutionViewer_handleLanguageChange_def Let_def)

lemma SearchResults_cache_hit:
  "truthy (translationCache s (language_name newLang @ ''_text'')) \<Longrightarrow>
   snd (SearchResults_handleLanguageChange API_KEY generateMain generateVerify data newLang s) = []
   \<and> translationCache
         (fst (SearchResults_handleLanguageChange API_KEY generateMain generateVerify data newLang s))
       = translationCache s
   \<and> language
         (fst (SearchResults_handleLanguageChange API_KEY generateMain generateVerify data newLang s))
       = newLang"
  by (simp add: SearchResults_handleLanguageChange_def Let_def)





end
